theory Spec2Isabelle
  imports Main
begin

section \<open>ModalBase.vue: a dialog bound to one named entry of the modal store\<close>

text \<open>
  The component \<^verbatim>\<open>frontend/components/modal/ModalBase.vue\<close> keeps a local flag
  \<^verbatim>\<open>modalIsOpen\<close> that is handed to the dialog of the UI toolkit, copies the store entry
  of its name into that flag (on mount and from a watcher), and closes the entry through
  \<^verbatim>\<open>closeModal\<close>, which first emits \<^verbatim>\<open>"closeModal"\<close> to the parent component.
  The script block is embedded as functions on an explicit state; the template is
  embedded as the table of listeners it attaches and the path an event bubbles along.
\<close>

subsection \<open>The store\<close>

text \<open>An entry of \<^verbatim>\<open>modals.modals\<close>: the component reads its field \<^verbatim>\<open>isOpen\<close> only.\<close>

record modal =
  isOpen :: bool

text \<open>\<^verbatim>\<open>modals.modals\<close>: an object indexed by the modal's name; a missing key reads as
  \<^verbatim>\<open>undefined\<close>, here \<open>None\<close>.\<close>

type_synonym registry = "string \<rightharpoonup> modal"

text \<open>Modelled from the spec: the store returned by \<^verbatim>\<open>useModals()\<close> is not among the
  sources; the component calls its action \<^verbatim>\<open>closeModal(name)\<close>. The spec, section 4.1:
  "close(name): sets isOpen = false for the entry if it exists; no-op (not an error) if
  the entry never existed."\<close>

definition modals_closeModal :: "string \<Rightarrow> registry \<Rightarrow> registry" where
  "modals_closeModal name reg =
     (case reg name of
        None \<Rightarrow> reg
      | Some e \<Rightarrow> reg(name \<mapsto> e\<lparr>isOpen := False\<rparr>))"

text \<open>Modelled from the spec: the store's action \<^verbatim>\<open>openModal(name)\<close>, called by other
  components and never by this one, is not among the sources. The spec, section 4.1:
  "open(name): ensures an entry for name exists, sets isOpen = true. No error
  conditions; idempotent if already open."\<close>

definition modals_openModal :: "string \<Rightarrow> registry \<Rightarrow> registry" where
  "modals_openModal name reg =
     (case reg name of
        None \<Rightarrow> reg(name \<mapsto> \<lparr>isOpen = True\<rparr>)
      | Some e \<Rightarrow> reg(name \<mapsto> e\<lparr>isOpen := True\<rparr>))"

subsection \<open>The component's state\<close>

text \<open>\<^verbatim>\<open>defineProps<{ imageModal?: boolean; modalName: string }>()\<close>: an absent boolean
  prop is \<^verbatim>\<open>false\<close>.\<close>

record props =
  props_imageModal :: bool
  props_modalName :: string

text \<open>A value passed along with an emitted event.\<close>

datatype jsval = JUndefined | JBool bool | JString string

text \<open>What leaves the component or reaches the store, in the order it happens:
  \<^verbatim>\<open>emit(event, ...args)\<close> to the parent, and the calls of the store's two actions.\<close>

datatype effect =
    Emit string "jsval list"
  | Call_closeModal string
  | Call_openModal string

text \<open>
  \<^item> \<open>modals\<close>: the store's state \<^verbatim>\<open>modals.modals\<close>, shared with the rest of the application;
  \<^item> \<open>props\<close>: the reactive props object, which the parent may change;
  \<^item> \<open>modalName\<close>: the constant \<^verbatim>\<open>const modalName = props.modalName\<close> of line 80;
  \<^item> \<open>modalIsOpen\<close>: the ref of line 81, bound to the dialog's \<^verbatim>\<open>:open\<close>;
  \<^item> \<open>watched\<close>: the value the getter of the first watcher (line 92) returned when the
    watcher last evaluated it; a watcher calls its callback only when the getter's value
    differs from this one;
  \<^item> \<open>trace\<close>: the effects so far.
\<close>

record state =
  modals :: registry
  props :: props
  modalName :: string
  modalIsOpen :: bool
  watched :: "bool option"
  trace :: "effect list"

subsection \<open>The script block\<close>

text \<open>Line 92, \<^verbatim>\<open>() => modals.modals[modalName]?.isOpen\<close>: \<^verbatim>\<open>undefined\<close> without an entry.\<close>

definition isOpen_getter :: "state \<Rightarrow> bool option" where
  "isOpen_getter s = map_option isOpen (modals s (modalName s))"

text \<open>Lines 71 to 98 as they run in \<^verbatim>\<open>setup\<close>: the name is read from the props once, the
  flag starts \<^verbatim>\<open>false\<close>, and the watcher, which is not immediate, evaluates its getter
  once to have a value to compare with.\<close>

definition script_setup :: "props \<Rightarrow> registry \<Rightarrow> state" where
  "script_setup p reg =
     \<lparr>modals = reg, props = p, modalName = props_modalName p, modalIsOpen = False,
      watched = map_option isOpen (reg (props_modalName p)), trace = []\<rparr>"

text \<open>Lines 83 to 88.\<close>

definition onMounted :: "state \<Rightarrow> state" where
  "onMounted s =
     (case modals s (modalName s) of
        None \<Rightarrow> s
      | Some e \<Rightarrow> s\<lparr>modalIsOpen := isOpen e\<rparr>)"

text \<open>Lines 93 to 97, the callback of the first watcher.\<close>

definition isOpen_callback :: "bool option \<Rightarrow> state \<Rightarrow> state" where
  "isOpen_callback newVal s =
     (case newVal of
        None \<Rightarrow> s
      | Some v \<Rightarrow> s\<lparr>modalIsOpen := v\<rparr>)"

text \<open>One run of the first watcher (lines 91 to 98): the getter is evaluated again, and
  the callback runs with the new value when it differs from the one seen before.\<close>

definition isOpen_watcher :: "state \<Rightarrow> state" where
  "isOpen_watcher s =
     (let newVal = isOpen_getter s
      in if newVal \<noteq> watched s
         then (isOpen_callback newVal s)\<lparr>watched := newVal\<rparr>
         else s)"

text \<open>\<^verbatim>\<open>emit(event, ...args)\<close> and \<^verbatim>\<open>modals.closeModal(name)\<close> as steps on the state.\<close>

definition emit :: "string \<Rightarrow> jsval list \<Rightarrow> state \<Rightarrow> state" where
  "emit ev args s = s\<lparr>trace := trace s @ [Emit ev args]\<rparr>"

definition call_closeModal :: "string \<Rightarrow> state \<Rightarrow> state" where
  "call_closeModal name s =
     s\<lparr>modals := modals_closeModal name (modals s),
       trace := trace s @ [Call_closeModal name]\<rparr>"

definition call_openModal :: "string \<Rightarrow> state \<Rightarrow> state" where
  "call_openModal name s =
     s\<lparr>modals := modals_openModal name (modals s),
       trace := trace s @ [Call_openModal name]\<rparr>"

text \<open>Lines 102 to 105.\<close>

definition closeModal :: "state \<Rightarrow> state" where
  "closeModal s = call_closeModal (modalName s) (emit ''closeModal'' [] s)"

text \<open>Lines 109 to 113, the callback of the watcher on the route: one call for each
  change of route the watcher reports.\<close>

definition route_watcher :: "state \<Rightarrow> state" where
  "route_watcher s =
     (if modals s (modalName s) \<noteq> None then closeModal s else s)"

subsection \<open>The template\<close>

datatype key = Enter | Escape | OtherKey

datatype dom_event = Click | Keydown key | Keypress key

text \<open>The elements of the template: \<open>Wrapper\<close> is the div of lines 7 to 16, \<open>CloseButton\<close>
  the button of lines 25 to 35 (image variant) or 37 to 42 (card variant), \<open>ButtonBox\<close>
  the div of line 36 around the card variant's button, \<open>Content\<close> the div around the
  slot, lines 44 to 56 (image variant) or 57 to 59 (card variant).\<close>

datatype node = Dialog | DialogBackdrop | Wrapper | DialogPanel | CloseButton | ButtonBox | Content

text \<open>Whether the template attaches \<^verbatim>\<open>closeModal()\<close> to an element for an event, given
  the prop \<^verbatim>\<open>imageModal\<close>: lines 8 and 9 on the wrapper whatever the variant, lines 27 and
  38 on the button of either variant, lines 46 and 47 on the content of the image
  variant.\<close>

fun listener :: "bool \<Rightarrow> node \<Rightarrow> dom_event \<Rightarrow> bool" where
  "listener im Wrapper ev = (ev = Click \<or> ev = Keydown Enter)"
| "listener im CloseButton ev = (ev = Click)"
| "listener im Content ev = (im \<and> (ev = Click \<or> ev = Keypress Escape))"
| "listener im Dialog ev = False"
| "listener im DialogBackdrop ev = False"
| "listener im DialogPanel ev = False"
| "listener im ButtonBox ev = False"

text \<open>The elements an event visits as it bubbles, from its target to the root.\<close>

fun path :: "bool \<Rightarrow> node \<Rightarrow> node list" where
  "path im Dialog = [Dialog]"
| "path im DialogBackdrop = [DialogBackdrop, Dialog]"
| "path im Wrapper = [Wrapper, Dialog]"
| "path im DialogPanel = [DialogPanel, Wrapper, Dialog]"
| "path im ButtonBox = [ButtonBox, DialogPanel, Wrapper, Dialog]"
| "path im CloseButton =
     (if im then [CloseButton, DialogPanel, Wrapper, Dialog]
      else [CloseButton, ButtonBox, DialogPanel, Wrapper, Dialog])"
| "path im Content = [Content, DialogPanel, Wrapper, Dialog]"

text \<open>Bubbling: each element on the path runs its listener. The template uses no
  \<^verbatim>\<open>.stop\<close> modifier, so its own elements pass every event on. \<open>DialogPanel\<close> is a
  component of the UI toolkit and lies between the content and the wrapper; which
  events it keeps from bubbling further is the toolkit's business and the parameter
  \<open>panel_stops\<close> here.\<close>

fun propagate :: "(dom_event \<Rightarrow> bool) \<Rightarrow> dom_event \<Rightarrow> node list \<Rightarrow> state \<Rightarrow> state" where
  "propagate panel_stops ev [] s = s"
| "propagate panel_stops ev (n # ns) s =
     (let s' = (if listener (props_imageModal (props s)) n ev then closeModal s else s)
      in if n = DialogPanel \<and> panel_stops ev then s'
         else propagate panel_stops ev ns s')"

definition dispatch :: "(dom_event \<Rightarrow> bool) \<Rightarrow> node \<Rightarrow> dom_event \<Rightarrow> state \<Rightarrow> state" where
  "dispatch panel_stops target ev s =
     propagate panel_stops ev (path (props_imageModal (props s)) target) s"

subsection \<open>What can happen to a mounted component\<close>

text \<open>
  \<^item> \<open>Open n\<close>, \<open>Close n\<close>: another part of the application calls the store;
  \<^item> \<open>Mounted\<close>: the \<^verbatim>\<open>onMounted\<close> hook runs;
  \<^item> \<open>Flush\<close>: the first watcher runs;
  \<^item> \<open>Navigate\<close>: the watcher on the route reports a change;
  \<^item> \<open>Gesture target ev\<close>: the user's event \<open>ev\<close> on the element \<open>target\<close>;
  \<^item> \<open>SetProps p\<close>: the parent passes new props.
\<close>

datatype event =
    Open string
  | Close string
  | Mounted
  | Flush
  | Navigate
  | Gesture node dom_event
  | SetProps props

fun step :: "(dom_event \<Rightarrow> bool) \<Rightarrow> event \<Rightarrow> state \<Rightarrow> state" where
  "step ps (Open n) s = call_openModal n s"
| "step ps (Close n) s = call_closeModal n s"
| "step ps Mounted s = onMounted s"
| "step ps Flush s = isOpen_watcher s"
| "step ps Navigate s = route_watcher s"
| "step ps (Gesture target ev) s = dispatch ps target ev s"
| "step ps (SetProps p) s = s\<lparr>props := p\<rparr>"

fun run :: "(dom_event \<Rightarrow> bool) \<Rightarrow> event list \<Rightarrow> state \<Rightarrow> state" where
  "run ps [] s = s"
| "run ps (e # es) s = run ps es (step ps e s)"

text \<open>The events that are interactions with the component itself, as opposed to calls
  of the store from elsewhere.\<close>

fun binding_event :: "event \<Rightarrow> bool" where
  "binding_event (Open n) = False"
| "binding_event (Close n) = False"
| "binding_event ev = True"

text \<open>One execution of the close protocol, as a list of effects.\<close>

definition close_protocol :: "string \<Rightarrow> effect list" where
  "close_protocol name = [Emit ''closeModal'' [], Call_closeModal name]"

text \<open>Whether the store holds an open entry for a name.\<close>

definition is_open :: "registry \<Rightarrow> string \<Rightarrow> bool" where
  "is_open reg name = (case reg name of None \<Rightarrow> False | Some e \<Rightarrow> isOpen e)"

text \<open>The watcher has evaluated its getter since the entry of the component's name last
  changed: the value it compares with is the current one.\<close>

definition settled :: "state \<Rightarrow> bool" where
  "settled s = (watched s = isOpen_getter s)"

text \<open>The local flag agrees with the store: with an entry for the component's name, the flag
  is the entry's \<^verbatim>\<open>isOpen\<close>.\<close>

definition in_sync :: "state \<Rightarrow> bool" where
  "in_sync s = (case modals s (modalName s) of None \<Rightarrow> True | Some e \<Rightarrow> modalIsOpen s = isOpen e)"

text \<open>The local flag is the last defined value the watcher has seen.\<close>

definition follows_watched :: "state \<Rightarrow> bool" where
  "follows_watched s = (case watched s of None \<Rightarrow> True | Some v \<Rightarrow> modalIsOpen s = v)"

subsection \<open>Concrete inputs used below\<close>

definition search_props :: "bool \<Rightarrow> props" where
  "search_props im = \<lparr>props_imageModal = im, props_modalName = ''search''\<rparr>"

text \<open>The store after \<^verbatim>\<open>openModal("search")\<close> on an empty store, and after a later
  \<^verbatim>\<open>closeModal("search")\<close>.\<close>

definition search_opened :: registry where
  "search_opened = modals_openModal ''search'' Map.empty"

definition search_closed :: registry where
  "search_closed = modals_closeModal ''search'' search_opened"

text \<open>A panel that keeps clicks inside it from bubbling and lets every other event pass:
  with it, a click on the card variant's content reaches no listener at all.\<close>

definition clicks_stay_in_panel :: "dom_event \<Rightarrow> bool" where
  "clicks_stay_in_panel ev = (ev = Click)"

text \<open>A panel that lets every event bubble on to the wrapper.\<close>

definition events_pass_panel :: "dom_event \<Rightarrow> bool" where
  "events_pass_panel ev = False"

text \<open>A component set up while the entry of its name is open, whose entry another part of
  the application closes before the component's mounted hook runs and opens again after
  it, the watcher not having run in between.\<close>

definition mounted_late :: state where
  "mounted_late =
     run clicks_stay_in_panel [Close ''search'', Mounted, Open ''search'']
       (script_setup (search_props False) search_opened)"

section \<open>Properties\<close>

subsection \<open>Basic facts about the close protocol\<close>

lemma trace_closeModal:
  "trace (closeModal s) = trace s @ close_protocol (modalName s)"
  by (simp add: closeModal_def call_closeModal_def emit_def close_protocol_def)

lemma modals_closeModal_state:
  "modals (closeModal s) = modals_closeModal (modalName s) (modals s)"
  by (simp add: closeModal_def call_closeModal_def emit_def)

lemma closeModal_frame:
  "modalName (closeModal s) = modalName s"
  "props (closeModal s) = props s"
  "modalIsOpen (closeModal s) = modalIsOpen s"
  "watched (closeModal s) = watched s"
  by (simp_all add: closeModal_def call_closeModal_def emit_def)

lemma propagate_frame:
  "modalName (propagate ps ev ns s) = modalName s \<and>
   props (propagate ps ev ns s) = props s \<and>
   modalIsOpen (propagate ps ev ns s) = modalIsOpen s \<and>
   watched (propagate ps ev ns s) = watched s"
  by (induction ns arbitrary: s) (simp_all add: Let_def closeModal_frame)


lemma propagate_trace:
  "\<exists>k. trace (propagate ps ev ns s) =
          trace s @ concat (replicate k (close_protocol (modalName s))) \<and>
       modals (propagate ps ev ns s) = ((modals_closeModal (modalName s)) ^^ k) (modals s)"
proof (induction ns arbitrary: s)
  case Nil
  have "trace s = trace s @ concat (replicate 0 (close_protocol (modalName s))) \<and>
        modals s = ((modals_closeModal (modalName s)) ^^ 0) (modals s)"
    by simp
  then show ?case
    unfolding propagate.simps by blast
next
  case (Cons n ns)
  define hit where "hit = listener (props_imageModal (props s)) n ev"
  define s' where "s' = (if hit then closeModal s else s)"
  define j :: nat where "j = (if hit then 1 else 0)"
  define f where "f = modals_closeModal (modalName s)"
  have name: "modalName s' = modalName s"
    by (simp add: s'_def closeModal_frame)
  have tr: "trace s' = trace s @ concat (replicate j (close_protocol (modalName s)))"
    by (simp add: s'_def j_def trace_closeModal)
  have md: "modals s' = (f ^^ j) (modals s)"
    by (simp add: s'_def j_def f_def modals_closeModal_state)
  have unfold: "propagate ps ev (n # ns) s =
                  (if n = DialogPanel \<and> ps ev then s' else propagate ps ev ns s')"
    by (simp add: s'_def hit_def Let_def)
  show ?case
  proof (cases "n = DialogPanel \<and> ps ev")
    case True
    then have "propagate ps ev (n # ns) s = s'"
      unfolding unfold by simp
    then show ?thesis
      using tr md unfolding f_def by metis
  next
    case False
    then have eq: "propagate ps ev (n # ns) s = propagate ps ev ns s'"
      unfolding unfold by auto
    from Cons.IH [of s'] obtain k where
      k1: "trace (propagate ps ev ns s') =
            trace s' @ concat (replicate k (close_protocol (modalName s)))" and
      k2: "modals (propagate ps ev ns s') = (f ^^ k) (modals s')"
      unfolding name f_def by blast
    have "trace (propagate ps ev (n # ns) s) =
            trace s @ concat (replicate (k + j) (close_protocol (modalName s)))"
      unfolding eq k1 tr add.commute [of k j] by (simp add: replicate_add)
    moreover have "modals (propagate ps ev (n # ns) s) = (f ^^ (k + j)) (modals s)"
      unfolding eq k2 md by (simp add: funpow_add)
    ultimately show ?thesis
      unfolding f_def by blast
  qed
qed


subsection \<open>The close protocol\<close>

text \<open>C1: one execution of \<^verbatim>\<open>closeModal\<close> adds exactly two effects, in this order: the event
  \<^verbatim>\<open>"closeModal"\<close> emitted to the parent with no argument (the spec's "closed"
  notification), then the call of the store's \<^verbatim>\<open>closeModal\<close> with the component's name;
  the store afterwards is the store's close applied once. Whatever triggers it, a user's
  event on any element or a change of route, adds a whole number of such pairs and nothing
  else: neither effect occurs without the other.\<close>

theorem closeModal_emits_then_closes:
  "trace (closeModal s) = trace s @ [Emit ''closeModal'' [], Call_closeModal (modalName s)] \<and>
   modals (closeModal s) = modals_closeModal (modalName s) (modals s) \<and>
   (\<exists>k. trace (dispatch ps target ev s) =
          trace s @ concat (replicate k [Emit ''closeModal'' [], Call_closeModal (modalName s)])) \<and>
   (\<exists>k. trace (route_watcher s) =
          trace s @ concat (replicate k [Emit ''closeModal'' [], Call_closeModal (modalName s)]))"
proof -
  let ?p = "[Emit ''closeModal'' [], Call_closeModal (modalName s)]"
  have p: "close_protocol (modalName s) = ?p"
    by (simp add: close_protocol_def)
  have a: "trace (closeModal s) = trace s @ ?p"
    using trace_closeModal [of s] p by simp
  have b: "modals (closeModal s) = modals_closeModal (modalName s) (modals s)"
    by (rule modals_closeModal_state)
  have c: "\<exists>k. trace (dispatch ps target ev s) = trace s @ concat (replicate k ?p)"
    using propagate_trace [of ps ev "path (props_imageModal (props s)) target" s] p
    unfolding dispatch_def by auto
  have "trace (route_watcher s) = trace s @ concat (replicate (if modals s (modalName s) \<noteq> None then 1 else 0) ?p)"
    using a by (simp add: route_watcher_def)
  then have d: "\<exists>k. trace (route_watcher s) = trace s @ concat (replicate k ?p)"
    by blast
  from a b c d show ?thesis by blast
qed

subsection \<open>Closing on navigation\<close>

text \<open>C2: each call of the route watcher's callback runs the close protocol exactly once when
  the store holds an entry for the component's name, open or closed, and does nothing when
  it holds none. The witness is a change of route after the modal has been closed already:
  the protocol runs again.\<close>

theorem route_change_closes_iff_entry:
  "(modals s (modalName s) = Some e \<longrightarrow>
      trace (route_watcher s) = trace s @ close_protocol (modalName s) \<and>
      modals (route_watcher s) = modals_closeModal (modalName s) (modals s)) \<and>
   (modals s (modalName s) = None \<longrightarrow> route_watcher s = s)"
  by (simp add: route_watcher_def trace_closeModal modals_closeModal_state)

theorem route_change_closes_iff_entry_witness:
  "search_closed ''search'' = Some \<lparr>isOpen = False\<rparr> \<and>
   trace (route_watcher (onMounted (script_setup (search_props False) search_closed))) =
     [Emit ''closeModal'' [], Call_closeModal ''search''] \<and>
   Map.empty ''search'' = (None :: modal option) \<and>
   trace (route_watcher (onMounted (script_setup (search_props False) Map.empty))) = []"
  using route_change_closes_iff_entry
          [of "onMounted (script_setup (search_props False) search_closed)" "\<lparr>isOpen = False\<rparr>"]
        route_change_closes_iff_entry
          [of "onMounted (script_setup (search_props False) Map.empty)"]
  by (simp add: search_closed_def search_opened_def search_props_def script_setup_def
      onMounted_def modals_openModal_def modals_closeModal_def close_protocol_def)

subsection \<open>Mounting\<close>

text \<open>C4: \<^verbatim>\<open>onMounted\<close> sets the local flag to the entry's \<^verbatim>\<open>isOpen\<close> when the store holds an
  entry for the component's name and leaves the flag alone otherwise; mounted right after
  setup, the flag is the entry's \<^verbatim>\<open>isOpen\<close>, or \<^verbatim>\<open>false\<close> without an entry, and it is
  \<^verbatim>\<open>true\<close> when the name has just been opened.\<close>

theorem mount_copies_entry:
  "modalIsOpen (onMounted s) =
     (case modals s (modalName s) of None \<Rightarrow> modalIsOpen s | Some e \<Rightarrow> isOpen e) \<and>
   modalIsOpen (onMounted (script_setup p reg)) =
     (case reg (props_modalName p) of None \<Rightarrow> False | Some e \<Rightarrow> isOpen e) \<and>
   modalIsOpen (onMounted (script_setup p (modals_openModal (props_modalName p) reg))) = True"
  by (simp add: onMounted_def script_setup_def modals_openModal_def split: option.splits)

text \<open>C7: mounting reads the store and writes nothing to it, and has no other effect; for a
  name the store has no entry for, the flag is \<^verbatim>\<open>false\<close> after the mount and the store still
  has no entry for the name.\<close>

theorem mount_of_unopened_name:
  "modals (onMounted s) = modals s \<and> trace (onMounted s) = trace s \<and>
   (reg (props_modalName p) = None \<longrightarrow>
      modalIsOpen (onMounted (script_setup p reg)) = False \<and>
      modals (onMounted (script_setup p reg)) = reg \<and>
      modals (onMounted (script_setup p reg)) (props_modalName p) = None \<and>
      trace (onMounted (script_setup p reg)) = [])"
  by (simp add: onMounted_def script_setup_def split: option.splits)

theorem mount_of_unopened_name_witness:
  "(Map.empty :: registry) ''search'' = None \<and>
   modalIsOpen (onMounted (script_setup (search_props False) Map.empty)) = False \<and>
   modals (onMounted (script_setup (search_props False) Map.empty)) ''search'' = None \<and>
   dom (modals (onMounted (script_setup (search_props False) Map.empty))) = {}"
  using mount_of_unopened_name [of "script_setup (search_props False) Map.empty" Map.empty "search_props False"]
  by (simp add: search_props_def script_setup_def)

subsection \<open>The watcher on the entry\<close>

text \<open>C10: when the entry of the component's name is absent, so that the getter yields
  \<^verbatim>\<open>undefined\<close>, a run of the watcher leaves the local flag as it was; it is not reset to
  \<^verbatim>\<open>false\<close>. The witness is a component mounted open whose entry then disappears.\<close>

theorem absent_entry_keeps_flag:
  "isOpen_getter s = None \<Longrightarrow>
     modalIsOpen (isOpen_watcher s) = modalIsOpen s \<and> watched (isOpen_watcher s) = None"
  by (simp add: isOpen_watcher_def isOpen_callback_def Let_def)

theorem absent_entry_keeps_flag_witness:
  "isOpen_getter ((onMounted (script_setup (search_props False) search_opened))\<lparr>modals := Map.empty\<rparr>) = None \<and>
   modalIsOpen (onMounted (script_setup (search_props False) search_opened)) = True \<and>
   modalIsOpen (isOpen_watcher ((onMounted (script_setup (search_props False) search_opened))\<lparr>modals := Map.empty\<rparr>)) = True"
  using absent_entry_keeps_flag
    [of "(onMounted (script_setup (search_props False) search_opened))\<lparr>modals := Map.empty\<rparr>"]
  by (simp add: isOpen_getter_def search_opened_def search_props_def script_setup_def
      onMounted_def modals_openModal_def)


subsection \<open>Facts about single events\<close>

lemma step_modalName:
  "modalName (step ps ev s) = modalName s"
proof (cases ev)
  case (Gesture target e)
  then show ?thesis
    using propagate_frame [of ps e "path (props_imageModal (props s)) target" s]
    by (simp add: dispatch_def)
qed (simp_all add: call_openModal_def call_closeModal_def onMounted_def isOpen_watcher_def
      isOpen_callback_def route_watcher_def closeModal_frame Let_def split: option.splits)

lemma run_modalName:
  "modalName (run ps es s) = modalName s"
  by (induction es arbitrary: s) (simp_all add: step_modalName)

lemma is_open_after_close:
  "is_open (modals_closeModal name reg) n \<Longrightarrow> is_open reg n"
  by (auto simp: is_open_def modals_closeModal_def split: option.splits if_splits)

lemma is_open_after_closes:
  "is_open ((modals_closeModal name ^^ k) reg) n \<Longrightarrow> is_open reg n"
  by (induction k) (auto dest: is_open_after_close)

lemma no_open_in_protocol:
  "Call_openModal n \<notin> set (concat (replicate k (close_protocol name)))"
  by (induction k) (simp_all add: close_protocol_def)

lemma step_flag:
  "modalIsOpen (step ps ev s) \<noteq> modalIsOpen s \<Longrightarrow>
     isOpen_getter s = Some (modalIsOpen (step ps ev s))"
proof (cases ev)
  case (Gesture target e)
  then show "modalIsOpen (step ps ev s) \<noteq> modalIsOpen s \<Longrightarrow> ?thesis"
    using propagate_frame [of ps e "path (props_imageModal (props s)) target" s]
    by (simp add: dispatch_def)
qed (auto simp: call_openModal_def call_closeModal_def onMounted_def isOpen_watcher_def
      isOpen_callback_def route_watcher_def closeModal_frame isOpen_getter_def Let_def
      split: option.splits if_splits)

subsection \<open>From the store to the view\<close>

text \<open>What the watcher does when it runs: if the entry's \<^verbatim>\<open>isOpen\<close> for the component's name
  is defined and differs from the value the watcher saw before, the local flag is
  overwritten with it; the watcher calls nothing (the store and the trace are as before).
  Whatever happens, if the local flag changes then its new value is the defined \<^verbatim>\<open>isOpen\<close>
  that the store holds for the component's name at that moment. An entry closed from
  outside a component mounted open reaches the flag at the watcher's next run.\<close>

lemma watcher_overwrites_on_observed_change:
  "(isOpen_getter s = Some v \<and> watched s \<noteq> Some v \<longrightarrow>
      modalIsOpen (isOpen_watcher s) = v \<and> watched (isOpen_watcher s) = Some v) \<and>
   modals (isOpen_watcher s) = modals s \<and>
   trace (isOpen_watcher s) = trace s \<and>
   (modalIsOpen (step ps ev s) \<noteq> modalIsOpen s \<longrightarrow>
      isOpen_getter s = Some (modalIsOpen (step ps ev s)))"
proof -
  have "isOpen_getter s = Some v \<and> watched s \<noteq> Some v \<longrightarrow>
      modalIsOpen (isOpen_watcher s) = v \<and> watched (isOpen_watcher s) = Some v"
    by (simp add: isOpen_watcher_def isOpen_callback_def Let_def)
  moreover have "modals (isOpen_watcher s) = modals s \<and> trace (isOpen_watcher s) = trace s"
    by (simp add: isOpen_watcher_def isOpen_callback_def Let_def split: option.splits)
  ultimately show ?thesis
    using step_flag [of ps ev s] by blast
qed

lemma external_close_reaches_flag:
  "isOpen_getter (step clicks_stay_in_panel (Close ''search'')
      (onMounted (script_setup (search_props False) search_opened))) = Some False \<and>
   watched (step clicks_stay_in_panel (Close ''search'')
      (onMounted (script_setup (search_props False) search_opened))) \<noteq> Some False \<and>
   modalIsOpen (step clicks_stay_in_panel (Close ''search'')
      (onMounted (script_setup (search_props False) search_opened))) = True \<and>
   modalIsOpen (step clicks_stay_in_panel Flush (step clicks_stay_in_panel (Close ''search'')
      (onMounted (script_setup (search_props False) search_opened)))) = False"
  using watcher_overwrites_on_observed_change
    [of "step clicks_stay_in_panel (Close ''search'')
          (onMounted (script_setup (search_props False) search_opened))" False
        clicks_stay_in_panel Flush]
  by (simp add: isOpen_getter_def search_opened_def search_props_def script_setup_def
      onMounted_def modals_openModal_def modals_closeModal_def call_closeModal_def)

text \<open>C5 says that whenever the entry's \<^verbatim>\<open>isOpen\<close> changes to a defined value the local
  flag is overwritten with it. The code misses a case. The watcher takes the value it
  compares with in setup, the flag takes its first value in the mounted hook. When the
  entry, open at setup, is closed before the mounted hook runs and opened again after it,
  the mount copies \<^verbatim>\<open>false\<close>, the entry then changes from \<^verbatim>\<open>false\<close> to \<^verbatim>\<open>true\<close>, and the
  watcher, comparing \<^verbatim>\<open>true\<close> with the \<^verbatim>\<open>true\<close> it saw in setup, does not call its
  callback: the flag stays \<^verbatim>\<open>false\<close> while the entry is open.\<close>

theorem late_mount_misses_reopen:
  "isOpen_getter (run clicks_stay_in_panel [Close ''search'', Mounted]
      (script_setup (search_props False) search_opened)) = Some False \<and>
   isOpen_getter mounted_late = Some True \<and>
   modalIsOpen mounted_late = False \<and>
   modalIsOpen (isOpen_watcher mounted_late) = False \<and>
   isOpen_getter (isOpen_watcher mounted_late) = Some True"
  by (simp add: mounted_late_def isOpen_getter_def isOpen_watcher_def isOpen_callback_def
      search_opened_def search_props_def script_setup_def onMounted_def
      modals_openModal_def modals_closeModal_def call_closeModal_def call_openModal_def)

subsection \<open>The view never opens\<close>

text \<open>C8: no interaction with the component itself (mount, run of the watcher, change of
  route, user's event, new props) opens a modal: every name that is open in the store after
  it was open before; the local flag is \<^verbatim>\<open>true\<close> afterwards only if it was before or the
  store holds \<^verbatim>\<open>isOpen = true\<close> for the component's name; and the effects it adds contain
  no call of the store's \<^verbatim>\<open>openModal\<close>.\<close>

theorem binding_never_opens:
  assumes "binding_event ev"
  shows "(\<forall>n. is_open (modals (step ps ev s)) n \<longrightarrow> is_open (modals s) n) \<and>
         (modalIsOpen (step ps ev s) \<longrightarrow> modalIsOpen s \<or> isOpen_getter s = Some True) \<and>
         (\<exists>new. trace (step ps ev s) = trace s @ new \<and> (\<forall>n. Call_openModal n \<notin> set new))"
proof -
  have flag: "modalIsOpen (step ps ev s) \<longrightarrow> modalIsOpen s \<or> isOpen_getter s = Some True"
  proof (cases "modalIsOpen (step ps ev s) = modalIsOpen s")
    case True
    then show ?thesis by simp
  next
    case False
    from step_flag [OF False] show ?thesis by auto
  qed
  have main: "\<exists>k. trace (step ps ev s) = trace s @ concat (replicate k (close_protocol (modalName s))) \<and>
                  modals (step ps ev s) = ((modals_closeModal (modalName s)) ^^ k) (modals s)"
  proof (cases ev)
    case (Gesture target e)
    then show ?thesis
      using propagate_trace [of ps e "path (props_imageModal (props s)) target" s]
      by (simp add: dispatch_def)
  next
    case Navigate
    have "trace (route_watcher s) =
            trace s @ concat (replicate (if modals s (modalName s) \<noteq> None then 1 else 0)
                                (close_protocol (modalName s))) \<and>
          modals (route_watcher s) =
            ((modals_closeModal (modalName s)) ^^ (if modals s (modalName s) \<noteq> None then 1 else 0))
              (modals s)"
      by (simp add: route_watcher_def trace_closeModal modals_closeModal_state)
    then show ?thesis
      unfolding Navigate step.simps by blast
  next
    case Mounted
    have "trace (onMounted s) = trace s @ concat (replicate 0 (close_protocol (modalName s))) \<and>
          modals (onMounted s) = ((modals_closeModal (modalName s)) ^^ 0) (modals s)"
      by (simp add: onMounted_def split: option.splits)
    then show ?thesis
      unfolding Mounted step.simps by blast
  next
    case Flush
    have "trace (isOpen_watcher s) = trace s @ concat (replicate 0 (close_protocol (modalName s))) \<and>
          modals (isOpen_watcher s) = ((modals_closeModal (modalName s)) ^^ 0) (modals s)"
      by (simp add: isOpen_watcher_def isOpen_callback_def Let_def split: option.splits)
    then show ?thesis
      unfolding Flush step.simps by blast
  next
    case (SetProps p)
    have "trace (s\<lparr>props := p\<rparr>) = trace s @ concat (replicate 0 (close_protocol (modalName s))) \<and>
          modals (s\<lparr>props := p\<rparr>) = ((modals_closeModal (modalName s)) ^^ 0) (modals s)"
      by simp
    then show ?thesis
      unfolding SetProps step.simps by blast
  next
    case (Open n)
    then show ?thesis using assms by simp
  next
    case (Close n)
    then show ?thesis using assms by simp
  qed
  then obtain k where
    k: "trace (step ps ev s) = trace s @ concat (replicate k (close_protocol (modalName s)))"
       "modals (step ps ev s) = ((modals_closeModal (modalName s)) ^^ k) (modals s)"
    by blast
  have "\<forall>n. is_open (modals (step ps ev s)) n \<longrightarrow> is_open (modals s) n"
    unfolding k(2) using is_open_after_closes by blast
  moreover have "\<exists>new. trace (step ps ev s) = trace s @ new \<and> (\<forall>n. Call_openModal n \<notin> set new)"
    using k(1) no_open_in_protocol by blast
  ultimately show ?thesis
    using flag by blast
qed

theorem binding_never_opens_witness:
  "binding_event (Gesture CloseButton Click) \<and>
   \<not> is_open search_closed ''search'' \<and>
   \<not> is_open (modals (step clicks_stay_in_panel (Gesture CloseButton Click)
        (onMounted (script_setup (search_props False) search_closed)))) ''search'' \<and>
   \<not> modalIsOpen (step clicks_stay_in_panel (Gesture CloseButton Click)
        (onMounted (script_setup (search_props False) search_closed))) \<and>
   trace (step clicks_stay_in_panel (Gesture CloseButton Click)
        (onMounted (script_setup (search_props False) search_closed))) =
     [Emit ''closeModal'' [], Call_closeModal ''search'']"
  using binding_never_opens
    [of "Gesture CloseButton Click" clicks_stay_in_panel
        "onMounted (script_setup (search_props False) search_closed)"]
  by (simp add: is_open_def isOpen_getter_def search_closed_def search_opened_def
      search_props_def script_setup_def onMounted_def modals_openModal_def
      modals_closeModal_def dispatch_def closeModal_def call_closeModal_def emit_def
      clicks_stay_in_panel_def)

subsection \<open>The captured name\<close>

text \<open>C9: the name is read from the props once, in setup. After any sequence of events,
  changes of the props among them, the component's name is still the \<^verbatim>\<open>modalName\<close> prop
  it was set up with; no event changes it; and the getter, the mount, the watcher,
  \<^verbatim>\<open>closeModal\<close> and the route watcher do on a state with changed props exactly what they
  do without the change: they keep using the captured name.\<close>

theorem name_captured_once:
  "modalName (run ps es (script_setup p reg)) = props_modalName p \<and>
   modalName (step ps ev s) = modalName s \<and>
   isOpen_getter (s\<lparr>props := p'\<rparr>) = isOpen_getter s \<and>
   onMounted (s\<lparr>props := p'\<rparr>) = (onMounted s)\<lparr>props := p'\<rparr> \<and>
   isOpen_watcher (s\<lparr>props := p'\<rparr>) = (isOpen_watcher s)\<lparr>props := p'\<rparr> \<and>
   closeModal (s\<lparr>props := p'\<rparr>) = (closeModal s)\<lparr>props := p'\<rparr> \<and>
   route_watcher (s\<lparr>props := p'\<rparr>) = (route_watcher s)\<lparr>props := p'\<rparr>"
proof -
  have "modalName (run ps es (script_setup p reg)) = props_modalName p"
    by (simp add: run_modalName script_setup_def)
  moreover have "closeModal (s\<lparr>props := p'\<rparr>) = (closeModal s)\<lparr>props := p'\<rparr>"
    by (simp add: closeModal_def call_closeModal_def emit_def)
  moreover from this have "route_watcher (s\<lparr>props := p'\<rparr>) = (route_watcher s)\<lparr>props := p'\<rparr>"
    by (simp add: route_watcher_def)
  moreover have "onMounted (s\<lparr>props := p'\<rparr>) = (onMounted s)\<lparr>props := p'\<rparr>"
    by (simp add: onMounted_def split: option.splits)
  moreover have "isOpen_watcher (s\<lparr>props := p'\<rparr>) = (isOpen_watcher s)\<lparr>props := p'\<rparr>"
    by (simp add: isOpen_watcher_def isOpen_callback_def isOpen_getter_def Let_def
        split: option.splits)
  moreover have "isOpen_getter (s\<lparr>props := p'\<rparr>) = isOpen_getter s"
    by (simp add: isOpen_getter_def)
  ultimately show ?thesis
    using step_modalName by blast
qed


subsection \<open>What counts as a dismiss gesture\<close>

text \<open>C3, as the code has it, for every element, every event and either variant. An event
  runs the close protocol at its target exactly when it is a click on the close control
  or, in the image variant only, a click or a keypress of Escape on the content region: in
  the card variant the content region has no listener of its own, and inside the panel
  only a click on the close control runs the protocol there. Besides, in both variants,
  the protocol runs at the wrapper for a click or a keydown of Enter whose target is the
  wrapper or lies inside the panel, the latter unless the panel stops the event. No other
  event on any element runs the protocol. The variants differ in the content region's own
  listeners and in nothing else.\<close>

theorem dismiss_targets_by_variant:
  "dispatch ps target ev s =
     (let own = (target = CloseButton \<and> ev = Click) \<or>
                (props_imageModal (props s) \<and> target = Content \<and>
                 (ev = Click \<or> ev = Keypress Escape));
          at_wrapper = (ev = Click \<or> ev = Keydown Enter) \<and>
                       (target = Wrapper \<or>
                        (target \<in> {DialogPanel, ButtonBox, CloseButton, Content} \<and> \<not> ps ev));
          s' = (if own then closeModal s else s)
      in if at_wrapper then closeModal s' else s')"
  by (cases target) (auto simp: dispatch_def closeModal_frame Let_def)

text \<open>The claim as worded, that in the card variant nothing but the close control
  dismisses and no Enter key does, fails. In a card-variant component mounted open a
  keydown of Enter in the content region and a click on the wrapper around the panel run
  the close protocol even with a panel that keeps clicks inside; and with a panel that
  lets events bubble, which nothing in the template prevents, so does a click in the
  content region.\<close>

theorem card_variant_dismissed_beyond_close_control:
  "props_imageModal (props (onMounted (script_setup (search_props False) search_opened))) = False \<and>
   modalIsOpen (onMounted (script_setup (search_props False) search_opened)) = True \<and>
   trace (dispatch clicks_stay_in_panel Content (Keydown Enter)
            (onMounted (script_setup (search_props False) search_opened))) =
     [Emit ''closeModal'' [], Call_closeModal ''search''] \<and>
   trace (dispatch clicks_stay_in_panel Wrapper Click
            (onMounted (script_setup (search_props False) search_opened))) =
     [Emit ''closeModal'' [], Call_closeModal ''search''] \<and>
   trace (dispatch events_pass_panel Content Click
            (onMounted (script_setup (search_props False) search_opened))) =
     [Emit ''closeModal'' [], Call_closeModal ''search'']"
  by (simp add: search_opened_def search_props_def script_setup_def onMounted_def
      modals_openModal_def dispatch_def closeModal_def call_closeModal_def emit_def
      clicks_stay_in_panel_def events_pass_panel_def)

subsection \<open>The flag and the entry\<close>

lemma settled_script_setup:
  "settled (script_setup p reg)"
  by (simp add: settled_def script_setup_def isOpen_getter_def)

lemma follows_watched_onMounted:
  "settled s \<Longrightarrow> follows_watched (onMounted s)"
  by (auto simp: settled_def follows_watched_def onMounted_def isOpen_getter_def
      split: option.splits)

lemma follows_watched_watcher:
  "follows_watched s \<Longrightarrow> follows_watched (isOpen_watcher s)"
  by (simp add: follows_watched_def isOpen_watcher_def isOpen_callback_def Let_def
      split: option.splits)

lemma settled_watcher:
  "settled (isOpen_watcher s)"
  by (simp add: settled_def isOpen_watcher_def isOpen_callback_def isOpen_getter_def Let_def
      split: option.splits)

lemma follows_watched_step:
  assumes "follows_watched s" and "ev \<noteq> Mounted"
  shows "follows_watched (step ps ev s)"
proof (cases ev)
  case (Gesture target e)
  then show ?thesis
    using assms(1)
    by (simp add: dispatch_def follows_watched_def propagate_frame split: option.splits)
next
  case Flush
  then show ?thesis
    using assms(1) by (simp add: follows_watched_watcher)
next
  case Navigate
  then show ?thesis
    using assms(1)
    by (simp add: follows_watched_def route_watcher_def closeModal_frame split: option.splits)
qed (use assms in \<open>simp_all add: follows_watched_def call_openModal_def call_closeModal_def
      split: option.splits\<close>)

lemma follows_watched_run:
  "follows_watched s \<Longrightarrow> Mounted \<notin> set es \<Longrightarrow> follows_watched (run ps es s)"
  by (induction es arbitrary: s) (auto simp: follows_watched_step)

lemma settled_in_sync:
  "follows_watched s \<Longrightarrow> settled s \<Longrightarrow> in_sync s"
  by (auto simp: follows_watched_def settled_def in_sync_def isOpen_getter_def
      split: option.splits)

text \<open>C6, as the code has it: for a component whose mounted hook ran when its watcher was
  up to date with the entry of its name, as it is when the component is mounted in the
  store it was set up with, after any sequence of calls of the store, user's events,
  changes of route, runs of the watcher and changes of props, the local flag equals the
  entry's \<^verbatim>\<open>isOpen\<close> whenever the entry exists and the watcher has evaluated the entry's
  current value; and a run of the watcher always brings the two back together.\<close>

theorem no_drift_once_watcher_has_run:
  assumes "settled s" and "Mounted \<notin> set es"
  shows "(settled (run ps es (onMounted s)) \<longrightarrow> in_sync (run ps es (onMounted s))) \<and>
         in_sync (isOpen_watcher (run ps es (onMounted s)))"
proof -
  let ?s = "run ps es (onMounted s)"
  have f: "follows_watched ?s"
    using assms by (simp add: follows_watched_run follows_watched_onMounted)
  then have "settled ?s \<longrightarrow> in_sync ?s"
    by (simp add: settled_in_sync)
  moreover have "in_sync (isOpen_watcher ?s)"
    using f by (simp add: settled_in_sync follows_watched_watcher settled_watcher)
  ultimately show ?thesis by simp
qed

theorem no_drift_once_watcher_has_run_witness:
  "settled (script_setup (search_props False) search_opened) \<and>
   Mounted \<notin> set [Gesture CloseButton Click, Flush, Open ''search'', Navigate, Flush] \<and>
   settled (run clicks_stay_in_panel [Gesture CloseButton Click, Flush, Open ''search'', Navigate, Flush]
      (onMounted (script_setup (search_props False) search_opened))) \<and>
   modalIsOpen (run clicks_stay_in_panel [Gesture CloseButton Click, Flush, Open ''search'', Navigate, Flush]
      (onMounted (script_setup (search_props False) search_opened))) = False \<and>
   modals (run clicks_stay_in_panel [Gesture CloseButton Click, Flush, Open ''search'', Navigate, Flush]
      (onMounted (script_setup (search_props False) search_opened))) ''search'' =
     Some \<lparr>isOpen = False\<rparr>"
  using no_drift_once_watcher_has_run
    [of "script_setup (search_props False) search_opened"
        "[Gesture CloseButton Click, Flush, Open ''search'', Navigate, Flush]"
        clicks_stay_in_panel]
  by (simp add: settled_def in_sync_def isOpen_getter_def isOpen_watcher_def isOpen_callback_def
      route_watcher_def call_openModal_def
      search_opened_def search_props_def script_setup_def onMounted_def
      modals_openModal_def modals_closeModal_def dispatch_def closeModal_def
      call_closeModal_def emit_def clicks_stay_in_panel_def)

text \<open>The equality does not hold at every point. Between a change of the entry and the
  watcher's next run the two differ: \<^verbatim>\<open>closeModal\<close> writes the store and not the flag, so
  after a click on the close control of a component mounted open the entry is closed and
  the flag is still \<^verbatim>\<open>true\<close>. And when the entry changes between setup and the mounted
  hook, the watcher not being up to date at the mount, the two can stay apart: set up on
  an open entry that is closed before the mount and opened again after it, the component
  has the flag \<^verbatim>\<open>false\<close> and the entry open after two runs of the watcher, and a further
  run changes nothing.\<close>

theorem flag_lags_and_drifts:
  "modalIsOpen (onMounted (script_setup (search_props False) search_opened)) = True \<and>
   modals (onMounted (script_setup (search_props False) search_opened)) ''search'' =
     Some \<lparr>isOpen = True\<rparr> \<and>
   modalIsOpen (run clicks_stay_in_panel [Gesture CloseButton Click]
      (onMounted (script_setup (search_props False) search_opened))) = True \<and>
   modals (run clicks_stay_in_panel [Gesture CloseButton Click]
      (onMounted (script_setup (search_props False) search_opened))) ''search'' =
     Some \<lparr>isOpen = False\<rparr> \<and>
   \<not> in_sync (run clicks_stay_in_panel [Gesture CloseButton Click]
      (onMounted (script_setup (search_props False) search_opened))) \<and>
   \<not> settled (run clicks_stay_in_panel [Close ''search'']
      (script_setup (search_props False) search_opened)) \<and>
   settled (run clicks_stay_in_panel [Close ''search'', Mounted, Open ''search'', Flush, Flush]
      (script_setup (search_props False) search_opened)) \<and>
   modals (run clicks_stay_in_panel [Close ''search'', Mounted, Open ''search'', Flush, Flush]
      (script_setup (search_props False) search_opened)) ''search'' = Some \<lparr>isOpen = True\<rparr> \<and>
   modalIsOpen (run clicks_stay_in_panel [Close ''search'', Mounted, Open ''search'', Flush, Flush]
      (script_setup (search_props False) search_opened)) = False \<and>
   \<not> in_sync (isOpen_watcher
      (run clicks_stay_in_panel [Close ''search'', Mounted, Open ''search'', Flush, Flush]
        (script_setup (search_props False) search_opened)))"
  by (simp add: in_sync_def settled_def isOpen_getter_def isOpen_watcher_def isOpen_callback_def
      search_opened_def search_props_def script_setup_def onMounted_def
      modals_openModal_def modals_closeModal_def dispatch_def closeModal_def
      call_closeModal_def call_openModal_def emit_def clicks_stay_in_panel_def)

end
